theory Spec2Isabelle
  imports Complex_Main
begin

section \<open>The PDF text editor: annotation model, render pipeline and exporter\<close>

text \<open>
  A shallow embedding of \<^verbatim>\<open>src/pages/index.tsx\<close> (the \<^verbatim>\<open>PDFViewer\<close> component).
  The component's \<^verbatim>\<open>useState\<close> cells are the fields of one record that every handler
  takes and returns. JavaScript numbers that hold coordinates are modelled as reals
  (every number evaluated below is a small integer, where IEEE doubles and reals agree);
  page indices and the clock are integers. What the handlers show to the user (alerts,
  the download) is logged in the state so that it can be observed.

  The two PDF libraries are outside the repository. Their answers are the fields of the
  record \<open>collaborators\<close>, so every theorem holds for whatever they answer, and each of
  their rejected promises and thrown exceptions is a branch of the model.
\<close>

subsection \<open>Data model\<close>

text \<open>The union type \<^verbatim>\<open>'small' | 'medium' | 'large'\<close> of lines 14, 154 and 158.\<close>

datatype fontSize = Small | Medium | Large

text \<open>\<^verbatim>\<open>interface Annotation\<close>, lines 8-15. A field \<open>ann_f\<close> is the source's \<^verbatim>\<open>ann.f\<close>.\<close>

record annotation =
  ann_id :: string
  ann_page :: int
  ann_x :: real
  ann_y :: real
  ann_text :: string
  ann_fontSize :: fontSize

type_synonym bytes = "nat list"

text \<open>
  A browser \<^verbatim>\<open>File\<close>: its declared MIME type and its content. The content is \<open>None\<close>
  when the platform cannot read the file (\<^verbatim>\<open>reader.onerror\<close> fires, \<^verbatim>\<open>arrayBuffer()\<close>
  rejects).
\<close>

record File =
  file_type :: string
  file_data :: "bytes option"

text \<open>A canvas element: its pixel size, and whether \<^verbatim>\<open>getContext('2d')\<close> answers a context.\<close>

record canvas =
  canvas_width :: int
  canvas_height :: int
  has_context :: bool

text \<open>
  A page of the rendering library (pdf.js): its box in PDF units, and whether
  \<^verbatim>\<open>page.render(...)\<close> resolves. A document is the list of what \<^verbatim>\<open>pdf.getPage(i)\<close>
  answers, \<open>None\<close> for a rejected promise.
\<close>

record pdfjs_page =
  pjs_width :: real
  pjs_height :: real
  pjs_renders :: bool

type_synonym pdfjs_doc = "pdfjs_page option list"

text \<open>
  A page of the authoring library (pdf-lib): its size in PDF units and the text objects
  drawn on it so far, each with the options of the \<^verbatim>\<open>drawText\<close> call of lines 188-194.
\<close>

datatype font = Helvetica

record drawn_text =
  dt_text :: string
  dt_x :: real
  dt_y :: real
  dt_font :: font
  dt_size :: nat
  dt_color :: "real \<times> real \<times> real"

record pdf_page =
  page_width :: real
  page_height :: real
  page_texts :: "drawn_text list"

type_synonym pdf_doc = "pdf_page list"

text \<open>What the two libraries answer; \<open>None\<close> and \<open>False\<close> stand for a failure.\<close>

record collaborators =
  getDocument :: "bytes \<Rightarrow> pdfjs_doc option"
  PDFDocument_load :: "bytes \<Rightarrow> pdf_doc option"
  embedFont :: "pdf_doc \<Rightarrow> font \<Rightarrow> bool"
  encodes :: "font \<Rightarrow> string \<Rightarrow> bool"
  save :: "pdf_doc \<Rightarrow> bytes option"

datatype error =
  FileReadError | DecodeError | GetPageError | RenderError
  | TypeError | EmbedError | EncodeError | SaveError

text \<open>
  The component state, lines 30-37, and behind it the storage key
  \<^verbatim>\<open>'pdf-annotations'\<close> (\<open>stored\<close>), the alerts shown and the files offered for download.
  \<open>canvasRefs\<close> holds the canvases that the page loop of a load finds mounted. The
  container refs of line 37 are read by \<open>handlePageClick\<close> only, which gets the
  rectangle of its container with the click.
\<close>

record viewer =
  pdfFile :: "File option"
  numPages :: nat
  annotations :: "annotation list"
  selectedAnnotation :: "string option"
  loading :: bool
  hasUnsavedChanges :: bool
  canvasRefs :: "canvas option list"
  stored :: "annotation list"
  alerts :: "string list"
  downloads :: "(string \<times> bytes) list"

subsection \<open>State setters\<close>

text \<open>
  \<^verbatim>\<open>setAnnotations\<close> together with the effect of lines 50-53, which runs after every
  change of \<^verbatim>\<open>annotations\<close>: it writes the set to storage and recomputes
  \<^verbatim>\<open>hasUnsavedChanges\<close>.
\<close>

definition setAnnotations :: "annotation list \<Rightarrow> viewer \<Rightarrow> viewer" where
  "setAnnotations anns s =
     s\<lparr>annotations := anns, stored := anns, hasUnsavedChanges := (length anns > 0)\<rparr>"

definition alert :: "string \<Rightarrow> viewer \<Rightarrow> viewer" where
  "alert msg s = s\<lparr>alerts := alerts s @ [msg]\<rparr>"

subsection \<open>Annotation model\<close>

text \<open>
  \<^verbatim>\<open>Date.now().toString()\<close>, line 135: the decimal digits of an integer number of
  milliseconds, with a minus sign for a clock set before 1970.
\<close>

definition digit_char :: "nat \<Rightarrow> char" where
  "digit_char d = ''0123456789'' ! d"

fun nat_toString :: "nat \<Rightarrow> string" where
  "nat_toString n =
     (if n < 10 then [digit_char n] else nat_toString (n div 10) @ [digit_char (n mod 10)])"

definition toString :: "int \<Rightarrow> string" where
  "toString n = (if n < 0 then CHR ''-'' # nat_toString (nat (- n)) else nat_toString (nat n))"

text \<open>
  A click on a page container, as \<^verbatim>\<open>handlePageClick\<close> reads it: the bounding rectangle
  of the container (\<open>None\<close> when the ref is not set), whether the click target lies
  inside an element of class \<^verbatim>\<open>annotation-text\<close>, the pointer position, and the clock.
\<close>

record click =
  rect :: "(real \<times> real) option"
  in_annotation_text :: bool
  clientX :: real
  clientY :: real
  now :: int

text \<open>Lines 126-144.\<close>

definition newAnnotation :: "int \<Rightarrow> click \<Rightarrow> real \<times> real \<Rightarrow> annotation" where
  "newAnnotation pageIndex ev r =
     \<lparr>ann_id = toString (now ev), ann_page = pageIndex,
      ann_x = clientX ev - fst r, ann_y = clientY ev - snd r,
      ann_text = ''Type here...'', ann_fontSize = Medium\<rparr>"

definition handlePageClick :: "int \<Rightarrow> click \<Rightarrow> viewer \<Rightarrow> viewer" where
  "handlePageClick pageIndex ev s =
     (case rect ev of
        None \<Rightarrow> s
      | Some r \<Rightarrow>
          if in_annotation_text ev then s
          else (setAnnotations (annotations s @ [newAnnotation pageIndex ev r]) s)
                 \<lparr>selectedAnnotation := Some (ann_id (newAnnotation pageIndex ev r))\<rparr>)"

text \<open>Lines 146-148.\<close>

definition handleAnnotationChange :: "string \<Rightarrow> string \<Rightarrow> viewer \<Rightarrow> viewer" where
  "handleAnnotationChange i newText s =
     setAnnotations
       (map (\<lambda>ann. if ann_id ann = i then ann\<lparr>ann_text := newText\<rparr> else ann) (annotations s)) s"

text \<open>Lines 150-152.\<close>

definition handleDeleteAnnotation :: "string \<Rightarrow> viewer \<Rightarrow> viewer" where
  "handleDeleteAnnotation i s =
     setAnnotations (filter (\<lambda>ann. ann_id ann \<noteq> i) (annotations s)) s"

text \<open>Lines 154-156.\<close>

definition handleFontSizeChange :: "string \<Rightarrow> fontSize \<Rightarrow> viewer \<Rightarrow> viewer" where
  "handleFontSizeChange i sz s =
     setAnnotations
       (map (\<lambda>ann. if ann_id ann = i then ann\<lparr>ann_fontSize := sz\<rparr> else ann) (annotations s)) s"

text \<open>Lines 158-164.\<close>

fun getFontSizeClass :: "fontSize \<Rightarrow> string" where
  "getFontSizeClass Small = ''text-xs''"
| "getFontSizeClass Medium = ''text-base''"
| "getFontSizeClass Large = ''text-lg''"

text \<open>The click handler of an annotation, lines 244-247.\<close>

definition selectAnnotation :: "string \<Rightarrow> viewer \<Rightarrow> viewer" where
  "selectAnnotation i s = s\<lparr>selectedAnnotation := Some i\<rparr>"

text \<open>
  The overlay of page \<open>index\<close>, line 239, and the test of line 256 that shows the editing
  controls of an annotation.
\<close>

definition forPage :: "int \<Rightarrow> viewer \<Rightarrow> annotation list" where
  "forPage index s = filter (\<lambda>ann. ann_page ann = index) (annotations s)"

definition isSelected :: "viewer \<Rightarrow> annotation \<Rightarrow> bool" where
  "isSelected s ann = (selectedAnnotation s = Some (ann_id ann))"

subsection \<open>Render pipeline\<close>

text \<open>
  The display scale of line 96, and the viewport the rendering library answers for a page
  at a scale: the page box times the scale.
\<close>

definition RENDER_SCALE :: real where
  "RENDER_SCALE = 3 / 2"

definition getViewport :: "real \<Rightarrow> pdfjs_page \<Rightarrow> real \<times> real" where
  "getViewport scale p = (pjs_width p * scale, pjs_height p * scale)"

text \<open>
  Reading \<^verbatim>\<open>canvasRefs.current[i]\<close>: \<^verbatim>\<open>undefined\<close> past the end and \<^verbatim>\<open>null\<close> for an
  unmounted canvas are both falsy.
\<close>

definition canvasAt :: "canvas option list \<Rightarrow> nat \<Rightarrow> canvas option" where
  "canvasAt refs i = (if i < length refs then refs ! i else None)"

text \<open>
  The loop of lines 94-110 from page \<open>i + 1\<close> on. It answers the canvases as the loop
  leaves them and the error that stopped it, if any. A canvas is resized before its page
  is rendered, so a failed render leaves it resized; the size attributes of a canvas are
  integers, the viewport's size is cut to them.
\<close>

fun renderPages :: "pdfjs_doc \<Rightarrow> nat \<Rightarrow> canvas option list \<Rightarrow> canvas option list \<times> error option" where
  "renderPages [] i refs = (refs, None)"
| "renderPages (None # ps) i refs = (refs, Some GetPageError)"
| "renderPages (Some page # ps) i refs =
     (let viewport = getViewport RENDER_SCALE page in
      case canvasAt refs i of
        None \<Rightarrow> renderPages ps (Suc i) refs
      | Some c \<Rightarrow>
          if has_context c then
            (let refs' = refs[i := Some (c\<lparr>canvas_height := \<lfloor>snd viewport\<rfloor>,
                                            canvas_width := \<lfloor>fst viewport\<rfloor>\<rparr>)]
             in if pjs_renders page then renderPages ps (Suc i) refs'
                else (refs', Some RenderError))
          else renderPages ps (Suc i) refs)"

text \<open>
  The \<^verbatim>\<open>try\<close> block of lines 84-118: the state as the block leaves it, and the
  exception that ended it, if any.
\<close>

definition loadTry :: "collaborators \<Rightarrow> File \<Rightarrow> viewer \<Rightarrow> viewer \<times> error option" where
  "loadTry co f s =
     (case file_data f of
        None \<Rightarrow> (s, Some FileReadError)
      | Some typedArray \<Rightarrow>
          (case getDocument co typedArray of
             None \<Rightarrow> (s, Some DecodeError)
           | Some pdf \<Rightarrow>
               (let s1 = s\<lparr>numPages := length pdf,
                           canvasRefs := take (length pdf) (canvasRefs s)\<rparr>;
                    r = renderPages pdf 0 (canvasRefs s1)
                in (s1\<lparr>canvasRefs := fst r\<rparr>, snd r))))"

text \<open>The \<^verbatim>\<open>catch\<close> block of lines 119-123.\<close>

definition loadFailed :: "viewer \<Rightarrow> viewer" where
  "loadFailed s =
     (alert ''Failed to load PDF. The file may be corrupted or invalid.'' s)\<lparr>pdfFile := None\<rparr>"

text \<open>Lines 82-124.\<close>

definition loadPdf :: "collaborators \<Rightarrow> File \<Rightarrow> viewer \<Rightarrow> viewer" where
  "loadPdf co f s =
     (case loadTry co f s of
        (s', None) \<Rightarrow> s'
      | (s', Some e) \<Rightarrow> loadFailed s')"

text \<open>Lines 69-80; \<open>None\<close> is an empty file selection.\<close>

definition handleFileChange :: "collaborators \<Rightarrow> File option \<Rightarrow> viewer \<Rightarrow> viewer" where
  "handleFileChange co sel s =
     (case sel of
        None \<Rightarrow> alert ''Please select a valid PDF file.'' s
      | Some f \<Rightarrow>
          if file_type f = ''application/pdf'' then
            (loadPdf co f (setAnnotations [] (s\<lparr>loading := True, pdfFile := Some f\<rparr>)))
              \<lparr>loading := False\<rparr>
          else alert ''Please select a valid PDF file.'' s)"

subsection \<open>Export\<close>

text \<open>The table of line 181.\<close>

fun fontSizeMap :: "fontSize \<Rightarrow> nat" where
  "fontSizeMap Small = 10"
| "fontSizeMap Medium = 14"
| "fontSizeMap Large = 18"

text \<open>
  \<^verbatim>\<open>pages[ann.page]\<close>, line 184: \<^verbatim>\<open>undefined\<close> for an index that is negative or not
  below the number of pages.
\<close>

definition pageAt :: "pdf_doc \<Rightarrow> int \<Rightarrow> pdf_page option" where
  "pageAt pages i = (if 0 \<le> i \<and> i < int (length pages) then Some (pages ! nat i) else None)"

text \<open>The text object that lines 186-194 draw for an annotation on a page of a height.\<close>

definition drawnFor :: "real \<Rightarrow> annotation \<Rightarrow> drawn_text" where
  "drawnFor height ann =
     (let y = height - ann_y ann in
      \<lparr>dt_text = ann_text ann, dt_x = ann_x ann, dt_y = y, dt_font = Helvetica,
       dt_size = fontSizeMap (ann_fontSize ann), dt_color = (0, 0, 0)\<rparr>)"

text \<open>
  The loop of lines 183-195. \<^verbatim>\<open>page.getSize()\<close> on \<^verbatim>\<open>undefined\<close> throws a TypeError;
  \<^verbatim>\<open>drawText\<close> throws when the font cannot encode the text.
\<close>

fun drawAnnotations :: "collaborators \<Rightarrow> pdf_doc \<Rightarrow> annotation list \<Rightarrow> error + pdf_doc" where
  "drawAnnotations co pages [] = Inr pages"
| "drawAnnotations co pages (ann # anns) =
     (case pageAt pages (ann_page ann) of
        None \<Rightarrow> Inl TypeError
      | Some page \<Rightarrow>
          if encodes co Helvetica (ann_text ann) then
            drawAnnotations co
              (pages[nat (ann_page ann) :=
                 page\<lparr>page_texts := page_texts page @ [drawnFor (page_height page) ann]\<rparr>])
              anns
          else Inl EncodeError)"

text \<open>The \<^verbatim>\<open>try\<close> block of lines 175-197: the bytes to offer, or the exception caught.\<close>

definition exportBytes :: "collaborators \<Rightarrow> File \<Rightarrow> annotation list \<Rightarrow> error + bytes" where
  "exportBytes co f anns =
     (case file_data f of
        None \<Rightarrow> Inl FileReadError
      | Some existingPdfBytes \<Rightarrow>
          (case PDFDocument_load co existingPdfBytes of
             None \<Rightarrow> Inl DecodeError
           | Some pdfDoc \<Rightarrow>
               if embedFont co pdfDoc Helvetica then
                 (case drawAnnotations co pdfDoc anns of
                    Inl e \<Rightarrow> Inl e
                  | Inr pdfDoc' \<Rightarrow>
                      (case save co pdfDoc' of
                         None \<Rightarrow> Inl SaveError
                       | Some pdfBytes \<Rightarrow> Inr pdfBytes))
               else Inl EmbedError))"

text \<open>Lines 166-214.\<close>

definition exportPdf :: "collaborators \<Rightarrow> viewer \<Rightarrow> viewer" where
  "exportPdf co s =
     (case pdfFile s of
        None \<Rightarrow> alert ''No PDF file loaded!'' s
      | Some f \<Rightarrow>
          (let s1 = s\<lparr>loading := True\<rparr> in
           (case exportBytes co f (annotations s1) of
              Inr pdfBytes \<Rightarrow>
                s1\<lparr>downloads := downloads s1 @ [(''edited.pdf'', pdfBytes)],
                   hasUnsavedChanges := False\<rparr>
            | Inl e \<Rightarrow> alert ''An error occurred while exporting the PDF.'' s1)
             \<lparr>loading := False\<rparr>))"

subsection \<open>The transform as the specification words it\<close>

text \<open>
  Section 4.3, step 2 of the specification: the screen position is first divided by the
  render pipeline's scale factor, then y is flipped against the page height. This
  definition follows the specification, not the code; \<open>drawnFor\<close> is the code.
\<close>

definition specTransform :: "real \<Rightarrow> real \<Rightarrow> annotation \<Rightarrow> real \<times> real" where
  "specTransform scale pdfHeight a = (ann_x a / scale, pdfHeight - ann_y a / scale)"

subsection \<open>Reading a decimal string back\<close>

text \<open>The inverse of \<open>nat_toString\<close>, used to show that distinct clock readings give distinct ids.\<close>

definition digit_val :: "char \<Rightarrow> nat" where
  "digit_val c = of_char c - 48"

definition of_digits :: "string \<Rightarrow> nat" where
  "of_digits cs = foldl (\<lambda>acc c. 10 * acc + digit_val c) 0 cs"

subsection \<open>Example inputs\<close>

text \<open>
  The state of a freshly mounted component, and a US Letter document of two pages
  (612 by 792 units) with libraries that accept it; their \<open>save\<close> writes, as a stand-in
  for the serialised document, the number of text objects of each page.
\<close>

definition initialViewer :: viewer where
  "initialViewer =
     \<lparr>pdfFile = None, numPages = 0, annotations = [], selectedAnnotation = None,
      loading = False, hasUnsavedChanges = False, canvasRefs = [], stored = [],
      alerts = [], downloads = []\<rparr>"

definition letterFile :: File where
  "letterFile = \<lparr>file_type = ''application/pdf'', file_data = Some [37, 80, 68, 70]\<rparr>"

definition letterPage :: pdf_page where
  "letterPage = \<lparr>page_width = 612, page_height = 792, page_texts = []\<rparr>"

definition exampleLibs :: collaborators where
  "exampleLibs =
     \<lparr>getDocument = (\<lambda>b. Some [Some \<lparr>pjs_width = 612, pjs_height = 792, pjs_renders = True\<rparr>,
                                 Some \<lparr>pjs_width = 612, pjs_height = 792, pjs_renders = True\<rparr>]),
      PDFDocument_load = (\<lambda>b. Some [letterPage, letterPage]),
      embedFont = (\<lambda>doc f. True),
      encodes = (\<lambda>f t. True),
      save = (\<lambda>doc. Some (map (\<lambda>p. length (page_texts p)) doc))\<rparr>"

text \<open>
  Two annotations on the two pages, one whose page the document does not have, the state
  after loading the document and placing the first two, and that state holding the stray
  annotation.
\<close>

definition annA :: annotation where
  "annA = \<lparr>ann_id = ''1000'', ann_page = 0, ann_x = 150, ann_y = 150,
           ann_text = ''Type here...'', ann_fontSize = Medium\<rparr>"

definition annB :: annotation where
  "annB = \<lparr>ann_id = ''2000'', ann_page = 1, ann_x = 30, ann_y = 60,
           ann_text = ''note'', ann_fontSize = Large\<rparr>"

definition annOut :: annotation where
  "annOut = \<lparr>ann_id = ''3000'', ann_page = 5, ann_x = 10, ann_y = 20,
             ann_text = ''lost'', ann_fontSize = Small\<rparr>"

definition loadedViewer :: viewer where
  "loadedViewer =
     \<lparr>pdfFile = Some letterFile, numPages = 2, annotations = [annA, annB],
      selectedAnnotation = Some ''1000'', loading = False, hasUnsavedChanges = True,
      canvasRefs = [Some \<lparr>canvas_width = 918, canvas_height = 1188, has_context = True\<rparr>,
                    Some \<lparr>canvas_width = 918, canvas_height = 1188, has_context = True\<rparr>],
      stored = [annA, annB], alerts = [], downloads = []\<rparr>"

definition strayViewer :: viewer where
  "strayViewer = loadedViewer\<lparr>annotations := [annOut, annA], stored := [annOut, annA]\<rparr>"

text \<open>
  The state in which \<open>handleFileChange\<close> starts the load of the document, with the two
  page canvases mounted at the default size of a canvas.
\<close>

definition mountedViewer :: viewer where
  "mountedViewer =
     initialViewer\<lparr>pdfFile := Some letterFile, loading := True,
       canvasRefs :=
         [Some \<lparr>canvas_width = 300, canvas_height = 150, has_context = True\<rparr>,
          Some \<lparr>canvas_width = 300, canvas_height = 150, has_context = True\<rparr>]\<rparr>"

text \<open>
  Libraries for which the document decodes with two pages and the second page cannot be
  fetched, a file that is not declared a PDF, and a PDF file that cannot be read.
\<close>

definition brokenLibs :: collaborators where
  "brokenLibs =
     exampleLibs\<lparr>getDocument :=
       (\<lambda>b. Some [Some \<lparr>pjs_width = 612, pjs_height = 792, pjs_renders = True\<rparr>, None])\<rparr>"

definition textFile :: File where
  "textFile = \<lparr>file_type = ''text/plain'', file_data = Some [104, 105]\<rparr>"

definition unreadableFile :: File where
  "unreadableFile = \<lparr>file_type = ''application/pdf'', file_data = None\<rparr>"

text \<open>
  Two clicks at the page-relative offset (100, 50): one at the clock reading 1000, at which
  the first annotation was made, and one at a later reading.
\<close>

definition sameMillisecondClick :: click where
  "sameMillisecondClick =
     \<lparr>rect = Some (8, 100), in_annotation_text = False, clientX = 108, clientY = 150,
      now = 1000\<rparr>"

definition laterClick :: click where
  "laterClick =
     \<lparr>rect = Some (8, 100), in_annotation_text = False, clientX = 108, clientY = 150,
      now = 3000\<rparr>"

subsection \<open>The coordinate transform\<close>

section \<open>Properties\<close>

declare nat_toString.simps [simp del]

lemmas example_defs =
  initialViewer_def letterFile_def letterPage_def exampleLibs_def annA_def annB_def annOut_def
  loadedViewer_def

subsection \<open>Ids\<close>

lemma digit_cases: "d < 10 \<Longrightarrow> d = 0 \<or> d = 1 \<or> d = 2 \<or> d = 3 \<or> d = 4 \<or> d = 5 \<or> d = 6 \<or> d = 7 \<or> d = 8 \<or> d = (9::nat)"
  by arith

lemma digit_val_digit_char: "d < 10 \<Longrightarrow> digit_val (digit_char d) = d"
  using digit_cases [of d] by (auto simp: digit_val_def digit_char_def)

lemma digit_char_not_minus: "d < 10 \<Longrightarrow> digit_char d \<noteq> CHR ''-''"
  using digit_cases [of d] by (auto simp: digit_char_def)

lemma of_digits_snoc: "of_digits (cs @ [c]) = 10 * of_digits cs + digit_val c"
  by (simp add: of_digits_def)

lemma of_digits_nat_toString: "of_digits (nat_toString n) = n"
proof (induction n rule: nat_toString.induct)
  case (1 n)
  show ?case
  proof (cases "n < 10")
    case True
    then show ?thesis
      by (simp add: nat_toString.simps [of n] of_digits_def digit_val_digit_char)
  next
    case False
    with 1 have "of_digits (nat_toString (n div 10)) = n div 10" by simp
    with False show ?thesis
      by (simp add: nat_toString.simps [of n] of_digits_snoc digit_val_digit_char)
  qed
qed

lemma nat_toString_inj: "nat_toString m = nat_toString n \<Longrightarrow> m = n"
  by (metis of_digits_nat_toString)

lemma nat_toString_hd: "\<exists>d cs. d < 10 \<and> nat_toString n = digit_char d # cs"
proof (induction n rule: nat_toString.induct)
  case (1 n)
  show ?case
  proof (cases "n < 10")
    case True
    then show ?thesis by (auto simp: nat_toString.simps [of n])
  next
    case False
    with 1 obtain d cs where "d < 10" "nat_toString (n div 10) = digit_char d # cs" by auto
    with False show ?thesis by (auto simp: nat_toString.simps [of n])
  qed
qed

lemma toString_inj: "toString m = toString n \<Longrightarrow> m = n"
proof -
  assume eq: "toString m = toString n"
  have nm: "nat_toString k \<noteq> CHR ''-'' # cs" for k cs
  proof
    assume "nat_toString k = CHR ''-'' # cs"
    with nat_toString_hd [of k] obtain d where "d < 10" "digit_char d = CHR ''-''" by auto
    then show False by (simp add: digit_char_not_minus)
  qed
  show ?thesis
  proof (cases "m < 0")
    case True
    note m = this
    show ?thesis
    proof (cases "n < 0")
      case True
      with m eq have "nat (- m) = nat (- n)"
        by (auto simp: toString_def dest: nat_toString_inj)
      with m True show ?thesis by simp
    next
      case False
      with m eq nm show ?thesis by (auto simp: toString_def dest: sym)
    qed
  next
    case False
    note m = this
    show ?thesis
    proof (cases "n < 0")
      case True
      with m eq nm show ?thesis by (auto simp: toString_def)
    next
      case False
      with m eq have "nat m = nat n"
        by (auto simp: toString_def dest: nat_toString_inj)
      with m False show ?thesis by simp
    qed
  qed
qed

subsection \<open>Editing annotations\<close>

text \<open>
  C9. \<open>handleAnnotationChange\<close> replaces only the text, and \<open>handleFontSizeChange\<close> only the
  font size, of the annotations whose id matches: such an annotation becomes itself with
  that one field replaced, every other annotation stays what it was at its position, the
  selection stays, and with an id that no annotation has the set is unchanged.
\<close>

theorem update_frame:
  "length (annotations (handleAnnotationChange i t s)) = length (annotations s) \<and>
   length (annotations (handleFontSizeChange i sz s)) = length (annotations s) \<and>
   (\<forall>k < length (annotations s).
      (ann_id (annotations s ! k) = i \<longrightarrow>
         annotations (handleAnnotationChange i t s) ! k = (annotations s ! k)\<lparr>ann_text := t\<rparr> \<and>
         annotations (handleFontSizeChange i sz s) ! k = (annotations s ! k)\<lparr>ann_fontSize := sz\<rparr>) \<and>
      (ann_id (annotations s ! k) \<noteq> i \<longrightarrow>
         annotations (handleAnnotationChange i t s) ! k = annotations s ! k \<and>
         annotations (handleFontSizeChange i sz s) ! k = annotations s ! k)) \<and>
   (i \<notin> ann_id ` set (annotations s) \<longrightarrow>
      annotations (handleAnnotationChange i t s) = annotations s \<and>
      annotations (handleFontSizeChange i sz s) = annotations s) \<and>
   selectedAnnotation (handleAnnotationChange i t s) = selectedAnnotation s \<and>
   selectedAnnotation (handleFontSizeChange i sz s) = selectedAnnotation s"
proof -
  have unknown: "map (\<lambda>ann. if ann_id ann = i then g ann else ann) (annotations s) = annotations s"
    if "i \<notin> ann_id ` set (annotations s)" for g :: "annotation \<Rightarrow> annotation"
    using that by (intro map_idI) auto
  show ?thesis
    by (simp add: handleAnnotationChange_def handleFontSizeChange_def setAnnotations_def unknown)
qed

theorem update_frame_witness:
  "annotations (handleAnnotationChange ''1000'' ''hello'' loadedViewer) =
     [annA\<lparr>ann_text := ''hello''\<rparr>, annB] \<and>
   annotations (handleFontSizeChange ''1000'' Small loadedViewer) =
     [annA\<lparr>ann_fontSize := Small\<rparr>, annB] \<and>
   annotations (handleAnnotationChange ''77'' ''hello'' loadedViewer) = [annA, annB] \<and>
   annotations (handleFontSizeChange ''77'' Small loadedViewer) = [annA, annB]"
proof -
  have len: "length (annotations loadedViewer) = 2" and
    a0: "annotations loadedViewer ! 0 = annA" and a1: "annotations loadedViewer ! 1 = annB" and
    all: "annotations loadedViewer = [annA, annB]"
    by (simp_all add: loadedViewer_def)
  have ids: "ann_id annA = ''1000''" "ann_id annB = ''2000''"
    by (simp_all add: annA_def annB_def)
  have unk: "''77'' \<notin> ann_id ` set (annotations loadedViewer)"
    by (simp add: all ids)
  note known = update_frame [of "''1000''" "''hello''" loadedViewer Small]
  note unknown = update_frame [of "''77''" "''hello''" loadedViewer Small]
  from known have l: "length (annotations (handleAnnotationChange ''1000'' ''hello'' loadedViewer)) = 2"
    "length (annotations (handleFontSizeChange ''1000'' Small loadedViewer)) = 2"
    by (simp_all add: len)
  from known have k0: "annotations (handleAnnotationChange ''1000'' ''hello'' loadedViewer) ! 0 = annA\<lparr>ann_text := ''hello''\<rparr>"
    "annotations (handleFontSizeChange ''1000'' Small loadedViewer) ! 0 = annA\<lparr>ann_fontSize := Small\<rparr>"
    using len a0 ids by auto
  from known have k1: "annotations (handleAnnotationChange ''1000'' ''hello'' loadedViewer) ! 1 = annB"
    "annotations (handleFontSizeChange ''1000'' Small loadedViewer) ! 1 = annB"
    using len a1 ids by auto
  have two: "xs = [xs ! 0, xs ! 1]" if "length xs = 2" for xs :: "annotation list"
    using that by (cases xs; cases "tl xs") auto
  from two [OF l(1)] two [OF l(2)] k0 k1 unknown unk all show ?thesis by simp
qed

subsection \<open>Export\<close>

lemma pageAt_Some_iff:
  "pageAt pages i = Some page \<longleftrightarrow> 0 \<le> i \<and> i < int (length pages) \<and> page = pages ! nat i"
  by (auto simp: pageAt_def)

lemma pageAt_None_iff: "pageAt pages i = None \<longleftrightarrow> \<not> (0 \<le> i \<and> i < int (length pages))"
  by (simp add: pageAt_def)

lemma pageAt_update_None: "pageAt (pages[j := p]) i = None \<longleftrightarrow> pageAt pages i = None"
  by (simp add: pageAt_None_iff)

lemma drawAnnotations_Inr:
  "drawAnnotations co pages anns = Inr pages' \<Longrightarrow>
   length pages' = length pages \<and>
   (\<forall>k < length pages.
      page_width (pages' ! k) = page_width (pages ! k) \<and>
      page_height (pages' ! k) = page_height (pages ! k) \<and>
      page_texts (pages' ! k) =
        page_texts (pages ! k) @
        map (drawnFor (page_height (pages ! k))) (filter (\<lambda>a. ann_page a = int k) anns))"
proof (induction anns arbitrary: pages)
  case Nil
  then show ?case by simp
next
  case (Cons ann anns)
  from Cons.prems obtain page where
    page: "pageAt pages (ann_page ann) = Some page" and
    enc: "encodes co Helvetica (ann_text ann)"
    by (auto split: option.splits if_splits)
  let ?j = "nat (ann_page ann)"
  let ?pages1 = "pages[?j := page\<lparr>page_texts := page_texts page @ [drawnFor (page_height page) ann]\<rparr>]"
  from page have j: "0 \<le> ann_page ann" "?j < length pages" "page = pages ! ?j"
    by (auto simp: pageAt_Some_iff)
  from Cons.prems page enc have rest: "drawAnnotations co ?pages1 anns = Inr pages'"
    by simp
  note ih = Cons.IH [OF rest]
  show ?case
  proof (intro conjI allI impI)
    show "length pages' = length pages" using ih by simp
  next
    fix k assume k: "k < length pages"
    with ih have at_k:
      "page_width (pages' ! k) = page_width (?pages1 ! k)"
      "page_height (pages' ! k) = page_height (?pages1 ! k)"
      "page_texts (pages' ! k) = page_texts (?pages1 ! k) @
         map (drawnFor (page_height (?pages1 ! k))) (filter (\<lambda>a. ann_page a = int k) anns)"
      by simp_all
    have same: "page_width (?pages1 ! k) = page_width (pages ! k)"
      "page_height (?pages1 ! k) = page_height (pages ! k)"
      using j(2,3) k by (simp_all add: nth_list_update)
    show "page_width (pages' ! k) = page_width (pages ! k)"
      using at_k(1) same by simp
    show "page_height (pages' ! k) = page_height (pages ! k)"
      using at_k(2) same by simp
    show "page_texts (pages' ! k) =
        page_texts (pages ! k) @
        map (drawnFor (page_height (pages ! k))) (filter (\<lambda>a. ann_page a = int k) (ann # anns))"
    proof (cases "k = ?j")
      case True
      with j have here: "ann_page ann = int k" "pages ! k = page" by simp_all
      from True k have "?pages1 ! k =
          page\<lparr>page_texts := page_texts page @ [drawnFor (page_height page) ann]\<rparr>"
        by simp
      with at_k(3) have "page_texts (pages' ! k) =
          (page_texts page @ [drawnFor (page_height page) ann]) @
          map (drawnFor (page_height page)) (filter (\<lambda>a. ann_page a = int k) anns)"
        by simp
      with here show ?thesis by simp
    next
      case False
      with j have "ann_page ann \<noteq> int k" by auto
      with at_k(3) False show ?thesis by simp
    qed
  qed
qed

lemma drawAnnotations_Inr_iff:
  "(\<exists>pages'. drawAnnotations co pages anns = Inr pages') \<longleftrightarrow>
   (\<forall>a \<in> set anns. pageAt pages (ann_page a) \<noteq> None \<and> encodes co Helvetica (ann_text a))"
proof (induction anns arbitrary: pages)
  case Nil
  then show ?case by simp
next
  case (Cons ann anns)
  show ?case
  proof (cases "pageAt pages (ann_page ann)")
    case None
    then show ?thesis by simp
  next
    case (Some page)
    then show ?thesis
      using Cons.IH [of "pages[nat (ann_page ann) :=
                 page\<lparr>page_texts := page_texts page @ [drawnFor (page_height page) ann]\<rparr>]"]
      by (simp add: pageAt_update_None)
  qed
qed

lemma drawAnnotations_Inl:
  assumes "a \<in> set anns" "pageAt pages (ann_page a) = None"
  shows "\<exists>e. drawAnnotations co pages anns = Inl e"
proof (cases "drawAnnotations co pages anns")
  case (Inl e)
  then show ?thesis by simp
next
  case (Inr pages')
  with drawAnnotations_Inr_iff [of co pages anns] assms show ?thesis by auto
qed


lemma exportPdf_failure:
  assumes "pdfFile s = Some f" "exportBytes co f (annotations s) = Inl e"
  shows "exportPdf co s =
    s\<lparr>alerts := alerts s @ [''An error occurred while exporting the PDF.''], loading := False\<rparr>"
  using assms by (simp add: exportPdf_def alert_def)

lemma exportPdf_success:
  assumes "pdfFile s = Some f" "exportBytes co f (annotations s) = Inr out"
  shows "exportPdf co s =
    s\<lparr>downloads := downloads s @ [(''edited.pdf'', out)], hasUnsavedChanges := False,
      loading := False\<rparr>"
  using assms by (simp add: exportPdf_def)

lemma exportPdf_frame:
  "pdfFile (exportPdf co s) = pdfFile s \<and> numPages (exportPdf co s) = numPages s \<and>
   annotations (exportPdf co s) = annotations s \<and>
   selectedAnnotation (exportPdf co s) = selectedAnnotation s \<and>
   stored (exportPdf co s) = stored s \<and> canvasRefs (exportPdf co s) = canvasRefs s"
  by (simp add: exportPdf_def alert_def Let_def split: option.splits sum.splits)

text \<open>
  C4. Export leaves the loaded file (its bytes included), the annotation set, the selection,
  the page count and the stored set as they were, whatever the libraries answer. When
  anything in the export fails, the state afterwards is the state before with the error
  alert added and the busy flag off, and nothing is offered for download; when it succeeds,
  the bytes that \<open>save\<close> answered are offered as \<^verbatim>\<open>edited.pdf\<close>.
\<close>

theorem exportPdf_keeps_document:
  "pdfFile (exportPdf co s) = pdfFile s \<and>
   annotations (exportPdf co s) = annotations s \<and>
   selectedAnnotation (exportPdf co s) = selectedAnnotation s \<and>
   numPages (exportPdf co s) = numPages s \<and>
   stored (exportPdf co s) = stored s \<and>
   (\<forall>f e. pdfFile s = Some f \<and> exportBytes co f (annotations s) = Inl e \<longrightarrow>
      downloads (exportPdf co s) = downloads s \<and>
      exportPdf co s =
        s\<lparr>alerts := alerts s @ [''An error occurred while exporting the PDF.''],
          loading := False\<rparr>) \<and>
   (\<forall>f out. pdfFile s = Some f \<and> exportBytes co f (annotations s) = Inr out \<longrightarrow>
      downloads (exportPdf co s) = downloads s @ [(''edited.pdf'', out)])"
proof -
  have "downloads (exportPdf co s) = downloads s \<and>
      exportPdf co s =
        s\<lparr>alerts := alerts s @ [''An error occurred while exporting the PDF.''],
          loading := False\<rparr>"
    if "pdfFile s = Some f" "exportBytes co f (annotations s) = Inl e" for f e
    using exportPdf_failure [OF that] by simp
  moreover have "downloads (exportPdf co s) = downloads s @ [(''edited.pdf'', out)]"
    if "pdfFile s = Some f" "exportBytes co f (annotations s) = Inr out" for f out
    using exportPdf_success [OF that] by simp
  ultimately show ?thesis
    using exportPdf_frame [of co s] by blast
qed

lemma stray_export: "exportBytes exampleLibs letterFile [annOut, annA] = Inl TypeError"
  by (simp add: exportBytes_def example_defs pageAt_def)

lemma loaded_export: "exportBytes exampleLibs letterFile [annA, annB] = Inr [1, 1]"
  by (simp add: exportBytes_def example_defs pageAt_def)

theorem exportPdf_keeps_document_witness:
  "exportPdf exampleLibs strayViewer =
     strayViewer\<lparr>alerts := [''An error occurred while exporting the PDF.'']\<rparr> \<and>
   downloads (exportPdf exampleLibs strayViewer) = [] \<and>
   downloads (exportPdf exampleLibs loadedViewer) = [(''edited.pdf'', [1, 1])] \<and>
   pdfFile (exportPdf exampleLibs loadedViewer) = Some letterFile"
proof -
  have f1: "pdfFile strayViewer = Some letterFile \<and>
      exportBytes exampleLibs letterFile (annotations strayViewer) = Inl TypeError"
    using stray_export by (simp add: strayViewer_def loadedViewer_def)
  have f2: "pdfFile loadedViewer = Some letterFile \<and>
      exportBytes exampleLibs letterFile (annotations loadedViewer) = Inr [1, 1]"
    using loaded_export by (simp add: loadedViewer_def)
  have r: "alerts strayViewer = []" "loading strayViewer = False" "downloads strayViewer = []"
    "downloads loadedViewer = []"
    by (simp_all add: strayViewer_def loadedViewer_def)
  from exportPdf_keeps_document [of exampleLibs strayViewer] f1
  have "downloads (exportPdf exampleLibs strayViewer) = downloads strayViewer \<and>
      exportPdf exampleLibs strayViewer =
        strayViewer\<lparr>alerts := alerts strayViewer @ [''An error occurred while exporting the PDF.''],
          loading := False\<rparr>"
    by blast
  moreover from exportPdf_keeps_document [of exampleLibs loadedViewer] f2
  have "downloads (exportPdf exampleLibs loadedViewer) = downloads loadedViewer @ [(''edited.pdf'', [1, 1])]"
    "pdfFile (exportPdf exampleLibs loadedViewer) = pdfFile loadedViewer"
    by blast+
  ultimately show ?thesis using r f2
    by (simp add: strayViewer_def loadedViewer_def)
qed


text \<open>
  With a stray annotation before one on page 0, the loop stops at the stray one: nothing
  is drawn for either, and there is no download.
\<close>

theorem exportPdf_page_out_of_range_counterexample:
  "drawAnnotations exampleLibs [letterPage, letterPage] [annOut, annA] = Inl TypeError \<and>
   exportBytes exampleLibs letterFile (annotations strayViewer) = Inl TypeError \<and>
   downloads (exportPdf exampleLibs strayViewer) = [] \<and>
   alerts (exportPdf exampleLibs strayViewer) = [''An error occurred while exporting the PDF.'']"
  by (simp add: exportPdf_def exportBytes_def alert_def strayViewer_def example_defs pageAt_def)

text \<open>
  C3, as amended. Export does not skip an annotation whose page index is out of range for
  the document it re-opens: the exception is caught, the export is given up with the error
  alert, nothing is offered for download and the annotation set stays. When every
  annotation's page index resolves to a page (and the font encodes its text), each page of
  the drawn document carries, after what it had, the texts of its annotations in the order
  of the set, and that document, once saved, is the download.
\<close>

theorem exportPdf_page_out_of_range:
  assumes "pdfFile s = Some f" and "file_data f = Some b" and "PDFDocument_load co b = Some doc"
  shows
    "((\<exists>a \<in> set (annotations s). pageAt doc (ann_page a) = None) \<longrightarrow>
        downloads (exportPdf co s) = downloads s \<and>
        alerts (exportPdf co s) = alerts s @ [''An error occurred while exporting the PDF.''] \<and>
        annotations (exportPdf co s) = annotations s) \<and>
     ((\<forall>a \<in> set (annotations s).
          pageAt doc (ann_page a) \<noteq> None \<and> encodes co Helvetica (ann_text a)) \<longrightarrow>
        (\<exists>doc'. drawAnnotations co doc (annotations s) = Inr doc' \<and>
           length doc' = length doc \<and>
           (\<forall>k < length doc.
              page_texts (doc' ! k) =
                page_texts (doc ! k) @
                map (drawnFor (page_height (doc ! k))) (forPage (int k) s)) \<and>
           (\<forall>out. embedFont co doc Helvetica \<and> save co doc' = Some out \<longrightarrow>
              downloads (exportPdf co s) = downloads s @ [(''edited.pdf'', out)])))"
proof (rule conjI; rule impI)
  assume "\<exists>a \<in> set (annotations s). pageAt doc (ann_page a) = None"
  then obtain e where "drawAnnotations co doc (annotations s) = Inl e"
    using drawAnnotations_Inl by blast
  with assms have "\<exists>e. exportBytes co f (annotations s) = Inl e"
    by (simp add: exportBytes_def)
  then obtain e' where "exportBytes co f (annotations s) = Inl e'" ..
  from exportPdf_failure [OF assms(1) this]
  show "downloads (exportPdf co s) = downloads s \<and>
        alerts (exportPdf co s) = alerts s @ [''An error occurred while exporting the PDF.''] \<and>
        annotations (exportPdf co s) = annotations s"
    by simp
next
  assume "\<forall>a \<in> set (annotations s).
          pageAt doc (ann_page a) \<noteq> None \<and> encodes co Helvetica (ann_text a)"
  then obtain doc' where drawn: "drawAnnotations co doc (annotations s) = Inr doc'"
    using drawAnnotations_Inr_iff [of co doc "annotations s"] by blast
  note shape = drawAnnotations_Inr [OF drawn]
  have "downloads (exportPdf co s) = downloads s @ [(''edited.pdf'', out)]"
    if "embedFont co doc Helvetica \<and> save co doc' = Some out" for out
  proof -
    from that assms drawn have "exportBytes co f (annotations s) = Inr out"
      by (simp add: exportBytes_def)
    from exportPdf_success [OF assms(1) this] show ?thesis by simp
  qed
  with drawn shape show "\<exists>doc'. drawAnnotations co doc (annotations s) = Inr doc' \<and>
           length doc' = length doc \<and>
           (\<forall>k < length doc.
              page_texts (doc' ! k) =
                page_texts (doc ! k) @
                map (drawnFor (page_height (doc ! k))) (forPage (int k) s)) \<and>
           (\<forall>out. embedFont co doc Helvetica \<and> save co doc' = Some out \<longrightarrow>
              downloads (exportPdf co s) = downloads s @ [(''edited.pdf'', out)])"
    by (simp add: forPage_def)
qed

theorem exportPdf_page_out_of_range_witness:
  "downloads (exportPdf exampleLibs (loadedViewer\<lparr>annotations := [annA, annOut]\<rparr>)) = [] \<and>
   (\<exists>doc'. drawAnnotations exampleLibs [letterPage, letterPage] [annA, annB] = Inr doc' \<and>
      page_texts (doc' ! 0) = [drawnFor 792 annA] \<and>
      page_texts (doc' ! 1) = [drawnFor 792 annB]) \<and>
   downloads (exportPdf exampleLibs loadedViewer) = [(''edited.pdf'', [1, 1])]"
proof -
  let ?s = "loadedViewer\<lparr>annotations := [annA, annOut]\<rparr>"
  have pre: "pdfFile ?s = Some letterFile" "pdfFile loadedViewer = Some letterFile"
    "file_data letterFile = Some [37, 80, 68, 70]"
    "PDFDocument_load exampleLibs [37, 80, 68, 70] = Some [letterPage, letterPage]"
    by (simp_all add: example_defs)
  have out: "\<exists>a \<in> set (annotations ?s). pageAt [letterPage, letterPage] (ann_page a) = None"
    by (simp add: example_defs pageAt_def)
  have ok: "\<forall>a \<in> set (annotations loadedViewer).
      pageAt [letterPage, letterPage] (ann_page a) \<noteq> None \<and>
      encodes exampleLibs Helvetica (ann_text a)"
    by (simp add: example_defs pageAt_def)
  from exportPdf_page_out_of_range [OF pre(1) pre(3) pre(4)] out
  have "downloads (exportPdf exampleLibs ?s) = downloads ?s" by blast
  then have first: "downloads (exportPdf exampleLibs ?s) = []"
    by (simp add: loadedViewer_def)
  from exportPdf_page_out_of_range [OF pre(2) pre(3) pre(4)] ok
  obtain doc' where d: "drawAnnotations exampleLibs [letterPage, letterPage] (annotations loadedViewer) = Inr doc'"
    "length doc' = length [letterPage, letterPage]"
    "\<forall>k < length [letterPage, letterPage].
        page_texts (doc' ! k) =
          page_texts ([letterPage, letterPage] ! k) @
          map (drawnFor (page_height ([letterPage, letterPage] ! k))) (forPage (int k) loadedViewer)"
    "\<forall>out. embedFont exampleLibs [letterPage, letterPage] Helvetica \<and>
        save exampleLibs doc' = Some out \<longrightarrow>
        downloads (exportPdf exampleLibs loadedViewer) =
          downloads loadedViewer @ [(''edited.pdf'', out)]"
    by blast
  have t0: "page_texts (doc' ! 0) = [drawnFor 792 annA]"
    using d(3) [rule_format, of 0] by (simp add: forPage_def example_defs)
  have t1: "page_texts (doc' ! 1) = [drawnFor 792 annB]"
    using d(3) [rule_format, of 1] by (simp add: forPage_def example_defs)
  have "doc' = [doc' ! 0, doc' ! 1]"
    using d(2) by (cases doc'; cases "tl doc'") auto
  then have "map (\<lambda>p. length (page_texts p)) doc' =
      [length (page_texts (doc' ! 0)), length (page_texts (doc' ! 1))]"
    by (rule ssubst) simp
  then have "save exampleLibs doc' = Some [1, 1]"
    using t0 t1 by (simp add: exampleLibs_def)
  with d(4) have "downloads (exportPdf exampleLibs loadedViewer) = [(''edited.pdf'', [1, 1])]"
    by (simp add: example_defs)
  moreover have "annotations loadedViewer = [annA, annB]"
    by (simp add: loadedViewer_def)
  ultimately show ?thesis
    using first d(1) t0 t1 by simp
qed


subsection \<open>Deleting\<close>

text \<open>Deleting the selected annotation leaves its id in the selection pointer.\<close>

theorem handleDeleteAnnotation_selection_counterexample:
  "selectedAnnotation loadedViewer = Some ''1000'' \<and>
   annotations (handleDeleteAnnotation ''1000'' loadedViewer) = [annB] \<and>
   selectedAnnotation (handleDeleteAnnotation ''1000'' loadedViewer) = Some ''1000''"
  by (simp add: handleDeleteAnnotation_def setAnnotations_def example_defs)

text \<open>
  C5, as amended. \<open>handleDeleteAnnotation\<close> removes the annotations with the given id and
  keeps the others in order; it leaves the selection pointer as it was. When the deleted
  annotation was the selected one, the pointer keeps its id, which no remaining annotation
  has, so none is shown as selected. With an id that no annotation has, the set and the
  selection are unchanged.
\<close>

theorem handleDeleteAnnotation_removes:
  "annotations (handleDeleteAnnotation i s) = filter (\<lambda>ann. ann_id ann \<noteq> i) (annotations s) \<and>
   i \<notin> ann_id ` set (annotations (handleDeleteAnnotation i s)) \<and>
   selectedAnnotation (handleDeleteAnnotation i s) = selectedAnnotation s \<and>
   (selectedAnnotation s = Some i \<longrightarrow>
      (\<forall>ann \<in> set (annotations (handleDeleteAnnotation i s)).
         \<not> isSelected (handleDeleteAnnotation i s) ann)) \<and>
   (i \<notin> ann_id ` set (annotations s) \<longrightarrow>
      annotations (handleDeleteAnnotation i s) = annotations s)"
proof -
  have "filter (\<lambda>ann. ann_id ann \<noteq> i) (annotations s) = annotations s"
    if "i \<notin> ann_id ` set (annotations s)"
    using that by (intro filter_True) auto
  then show ?thesis
    by (auto simp: handleDeleteAnnotation_def setAnnotations_def isSelected_def)
qed

theorem handleDeleteAnnotation_removes_witness:
  "annotations (handleDeleteAnnotation ''1000'' loadedViewer) = [annB] \<and>
   \<not> isSelected (handleDeleteAnnotation ''1000'' loadedViewer) annB \<and>
   annotations (handleDeleteAnnotation ''77'' loadedViewer) = [annA, annB] \<and>
   selectedAnnotation (handleDeleteAnnotation ''77'' loadedViewer) = Some ''1000''"
proof -
  have sel: "selectedAnnotation loadedViewer = Some ''1000''"
    and all: "annotations loadedViewer = [annA, annB]"
    and ids: "ann_id annA = ''1000''" "ann_id annB = ''2000''"
    by (simp_all add: example_defs)
  have unk: "''77'' \<notin> ann_id ` set (annotations loadedViewer)"
    by (simp add: all ids)
  note del = handleDeleteAnnotation_removes [of "''1000''" loadedViewer]
  note noop = handleDeleteAnnotation_removes [of "''77''" loadedViewer]
  from del have left: "annotations (handleDeleteAnnotation ''1000'' loadedViewer) = [annB]"
    by (simp add: all ids)
  with del sel have "\<not> isSelected (handleDeleteAnnotation ''1000'' loadedViewer) annB"
    by simp
  with left noop unk sel all ids show ?thesis by simp
qed

subsection \<open>Font sizes\<close>



text \<open>The export uses the screen offsets as they are, whatever the scale of the render.\<close>

lemma drawnFor_position:
  "dt_x (drawnFor height ann) = ann_x ann \<and> dt_y (drawnFor height ann) = height - ann_y ann"
  by (simp add: drawnFor_def)

text \<open>
  C1. The pages are rendered at scale 1.5, and the export neither divides by that scale
  nor by any other: for the annotation placed at screen position (150, 150) on a page
  792 units high, the export draws at (150, 642), where the transform of the
  specification, at the render scale, gives (100, 692).
\<close>

theorem exportPdf_ignores_render_scale:
  "RENDER_SCALE = 3 / 2 \<and>
   drawAnnotations exampleLibs [letterPage, letterPage] [annA] =
     Inr [letterPage\<lparr>page_texts :=
            [\<lparr>dt_text = ''Type here...'', dt_x = 150, dt_y = 642, dt_font = Helvetica,
              dt_size = 14, dt_color = (0, 0, 0)\<rparr>]\<rparr>,
          letterPage] \<and>
   specTransform RENDER_SCALE (page_height letterPage) annA = (100, 692)"
  by (simp add: RENDER_SCALE_def specTransform_def drawnFor_def pageAt_def example_defs)

text \<open>
  Against the page height the flip is exact and strictly decreasing; the theorem after
  these shows that the page height is not the height of the pixel surface.
\<close>

lemma flip_monotone:
  "ann_y a < ann_y b \<Longrightarrow> dt_y (drawnFor height b) < dt_y (drawnFor height a)"
  by (simp add: drawnFor_def)

lemma flip_page_height:
  "dt_y (drawnFor height (a\<lparr>ann_y := 0\<rparr>)) = height \<and>
   dt_y (drawnFor height (a\<lparr>ann_y := height\<rparr>)) = 0"
  by (simp add: drawnFor_def)

text \<open>
  C2. A page 792 units high is rendered on a pixel surface 1188 pixels high. The export
  flips against 792: an annotation at screen y = 0 is drawn at PDF y = 792, not 1188, and
  one at screen y = 1188, the bottom edge of the surface, at PDF y = -396, not 0.
\<close>

theorem export_flips_against_page_height_not_surface:
  "canvasRefs (loadPdf exampleLibs letterFile mountedViewer) =
     [Some \<lparr>canvas_width = 918, canvas_height = 1188, has_context = True\<rparr>,
      Some \<lparr>canvas_width = 918, canvas_height = 1188, has_context = True\<rparr>] \<and>
   drawAnnotations exampleLibs [letterPage, letterPage]
       [annA\<lparr>ann_y := 0\<rparr>, annA\<lparr>ann_y := 1188\<rparr>] =
     Inr [letterPage\<lparr>page_texts :=
            [\<lparr>dt_text = ''Type here...'', dt_x = 150, dt_y = 792, dt_font = Helvetica,
              dt_size = 14, dt_color = (0, 0, 0)\<rparr>,
             \<lparr>dt_text = ''Type here...'', dt_x = 150, dt_y = - 396, dt_font = Helvetica,
              dt_size = 14, dt_color = (0, 0, 0)\<rparr>]\<rparr>,
          letterPage]"
  by (simp add: loadPdf_def loadTry_def getViewport_def RENDER_SCALE_def canvasAt_def
      drawnFor_def pageAt_def mountedViewer_def example_defs)


subsection \<open>Loading\<close>

lemma loadTry_error_canvasRefs:
  "canvasRefs s' = canvasRefs s \<Longrightarrow> snd (loadTry co f s') = snd (loadTry co f s)"
  by (simp add: loadTry_def Let_def split: option.splits)

lemma loadPdf_failed:
  "snd (loadTry co f s) = Some e \<Longrightarrow> loadPdf co f s = loadFailed (fst (loadTry co f s))"
  by (cases "loadTry co f s") (simp add: loadPdf_def)

lemma loadTry_frame:
  "alerts (fst (loadTry co f s)) = alerts s \<and>
   annotations (fst (loadTry co f s)) = annotations s \<and>
   selectedAnnotation (fst (loadTry co f s)) = selectedAnnotation s \<and>
   pdfFile (fst (loadTry co f s)) = pdfFile s"
  by (simp add: loadTry_def Let_def split: option.splits)

lemma loadTry_numPages:
  "numPages (fst (loadTry co f s)) =
     (case file_data f of
        None \<Rightarrow> numPages s
      | Some b \<Rightarrow> (case getDocument co b of None \<Rightarrow> numPages s | Some pdf \<Rightarrow> length pdf))"
  by (simp add: loadTry_def Let_def split: option.splits)

lemma loadPdf_frame:
  "annotations (loadPdf co f s) = annotations s \<and>
   selectedAnnotation (loadPdf co f s) = selectedAnnotation s"
proof (cases "loadTry co f s")
  case (Pair s' r)
  with loadTry_frame [of co f s] show ?thesis
    by (cases r) (simp_all add: loadPdf_def loadFailed_def alert_def)
qed

text \<open>
  A load that fails at the second page leaves the page count of the failed document in a
  viewer that had none.
\<close>

theorem load_failure_keeps_numPages_counterexample:
  "numPages initialViewer = 0 \<and>
   snd (loadTry brokenLibs letterFile initialViewer) = Some GetPageError \<and>
   pdfFile (handleFileChange brokenLibs (Some letterFile) initialViewer) = None \<and>
   numPages (handleFileChange brokenLibs (Some letterFile) initialViewer) = 2"
  by (simp add: handleFileChange_def loadPdf_def loadTry_def loadFailed_def alert_def
      setAnnotations_def getViewport_def canvasAt_def brokenLibs_def example_defs)

text \<open>
  C6, as amended. When the \<^verbatim>\<open>try\<close> block of the load ends with an exception, the
  loaded-file cell is cleared, so no file counts as loaded, the failure alert is shown and
  the busy flag is off. The page count is not reset: it is the page count of the failed
  document when the failure came after the document was decoded, and what it was before
  the load when the file could not be read or decoded. Selecting a file whose declared type
  is not PDF, or no file, only shows the rejection alert: the result does not depend on
  the libraries, and the loaded file, the page count and the annotations stay.
\<close>

theorem load_failure_and_rejection:
  "(file_type f = ''application/pdf'' \<and> snd (loadTry co f s) \<noteq> None \<longrightarrow>
      pdfFile (handleFileChange co (Some f) s) = None \<and>
      alerts (handleFileChange co (Some f) s) =
        alerts s @ [''Failed to load PDF. The file may be corrupted or invalid.''] \<and>
      loading (handleFileChange co (Some f) s) = False \<and>
      numPages (handleFileChange co (Some f) s) =
        (case file_data f of
           None \<Rightarrow> numPages s
         | Some b \<Rightarrow>
             (case getDocument co b of None \<Rightarrow> numPages s | Some pdf \<Rightarrow> length pdf))) \<and>
   (file_type f \<noteq> ''application/pdf'' \<longrightarrow>
      handleFileChange co (Some f) s = alert ''Please select a valid PDF file.'' s \<and>
      pdfFile (handleFileChange co (Some f) s) = pdfFile s \<and>
      numPages (handleFileChange co (Some f) s) = numPages s \<and>
      annotations (handleFileChange co (Some f) s) = annotations s) \<and>
   handleFileChange co None s = alert ''Please select a valid PDF file.'' s"
proof -
  let ?s = "setAnnotations [] (s\<lparr>loading := True, pdfFile := Some f\<rparr>)"
  have failed: "pdfFile (handleFileChange co (Some f) s) = None \<and>
      alerts (handleFileChange co (Some f) s) =
        alerts s @ [''Failed to load PDF. The file may be corrupted or invalid.''] \<and>
      loading (handleFileChange co (Some f) s) = False \<and>
      numPages (handleFileChange co (Some f) s) =
        (case file_data f of
           None \<Rightarrow> numPages s
         | Some b \<Rightarrow>
             (case getDocument co b of None \<Rightarrow> numPages s | Some pdf \<Rightarrow> length pdf))"
    if pdf: "file_type f = ''application/pdf''" and err: "snd (loadTry co f s) \<noteq> None"
  proof -
    have "canvasRefs ?s = canvasRefs s" by (simp add: setAnnotations_def)
    from loadTry_error_canvasRefs [OF this] err
    obtain e where "snd (loadTry co f ?s) = Some e" by auto
    from loadPdf_failed [OF this] have "loadPdf co f ?s = loadFailed (fst (loadTry co f ?s))" .
    moreover have "alerts (fst (loadTry co f ?s)) = alerts s"
      using loadTry_frame [of co f ?s] by (simp add: setAnnotations_def)
    moreover have "numPages (fst (loadTry co f ?s)) =
        (case file_data f of
           None \<Rightarrow> numPages s
         | Some b \<Rightarrow>
             (case getDocument co b of None \<Rightarrow> numPages s | Some pdf \<Rightarrow> length pdf))"
      by (simp add: loadTry_numPages setAnnotations_def split: option.splits)
    ultimately show ?thesis
      using pdf by (simp add: handleFileChange_def loadFailed_def alert_def)
  qed
  have rejected: "handleFileChange co (Some f) s = alert ''Please select a valid PDF file.'' s"
    if "file_type f \<noteq> ''application/pdf''"
    using that by (simp add: handleFileChange_def)
  have none: "handleFileChange co None s = alert ''Please select a valid PDF file.'' s"
    by (simp add: handleFileChange_def)
  from failed rejected none show ?thesis
    by (simp add: alert_def)
qed

theorem load_failure_and_rejection_witness:
  "pdfFile (handleFileChange brokenLibs (Some letterFile) loadedViewer) = None \<and>
   numPages initialViewer = 0 \<and>
   numPages (handleFileChange brokenLibs (Some letterFile) initialViewer) = 2 \<and>
   pdfFile (handleFileChange exampleLibs (Some unreadableFile) initialViewer) = None \<and>
   numPages (handleFileChange exampleLibs (Some unreadableFile) initialViewer) = 0 \<and>
   handleFileChange exampleLibs (Some textFile) initialViewer =
     initialViewer\<lparr>alerts := [''Please select a valid PDF file.'']\<rparr> \<and>
   numPages (handleFileChange exampleLibs (Some textFile) initialViewer) = 0"
proof -
  have err: "file_type letterFile = ''application/pdf'' \<and>
      snd (loadTry brokenLibs letterFile loadedViewer) \<noteq> None"
    by (simp add: loadTry_def getViewport_def canvasAt_def brokenLibs_def example_defs)
  have err0: "file_type letterFile = ''application/pdf'' \<and>
      snd (loadTry brokenLibs letterFile initialViewer) \<noteq> None"
    by (simp add: loadTry_def getViewport_def canvasAt_def brokenLibs_def example_defs)
  have unread: "file_type unreadableFile = ''application/pdf'' \<and>
      snd (loadTry exampleLibs unreadableFile initialViewer) \<noteq> None"
    by (simp add: loadTry_def unreadableFile_def)
  have plain: "file_type textFile \<noteq> ''application/pdf''"
    by (simp add: textFile_def)
  have decoded: "file_data letterFile = Some [37, 80, 68, 70]"
    "getDocument brokenLibs [37, 80, 68, 70] =
       Some [Some \<lparr>pjs_width = 612, pjs_height = 792, pjs_renders = True\<rparr>, None]"
    "file_data unreadableFile = None"
    by (simp_all add: letterFile_def brokenLibs_def exampleLibs_def unreadableFile_def)
  have zero: "numPages initialViewer = 0"
    by (simp add: initialViewer_def)
  from load_failure_and_rejection [of letterFile brokenLibs loadedViewer] err
  have cleared: "pdfFile (handleFileChange brokenLibs (Some letterFile) loadedViewer) = None"
    by blast
  from load_failure_and_rejection [of letterFile brokenLibs initialViewer] err0
  have "numPages (handleFileChange brokenLibs (Some letterFile) initialViewer) =
      (case file_data letterFile of
         None \<Rightarrow> numPages initialViewer
       | Some b \<Rightarrow>
           (case getDocument brokenLibs b of
              None \<Rightarrow> numPages initialViewer
            | Some pdf \<Rightarrow> length pdf))"
    by blast
  then have kept: "numPages (handleFileChange brokenLibs (Some letterFile) initialViewer) = 2"
    by (simp add: decoded)
  from load_failure_and_rejection [of unreadableFile exampleLibs initialViewer] unread
  have "pdfFile (handleFileChange exampleLibs (Some unreadableFile) initialViewer) = None"
    "numPages (handleFileChange exampleLibs (Some unreadableFile) initialViewer) =
      (case file_data unreadableFile of
         None \<Rightarrow> numPages initialViewer
       | Some b \<Rightarrow>
           (case getDocument exampleLibs b of
              None \<Rightarrow> numPages initialViewer
            | Some pdf \<Rightarrow> length pdf))"
    by blast+
  then have unreadable:
    "pdfFile (handleFileChange exampleLibs (Some unreadableFile) initialViewer) = None"
    "numPages (handleFileChange exampleLibs (Some unreadableFile) initialViewer) = 0"
    by (simp_all add: decoded zero)
  from load_failure_and_rejection [of textFile exampleLibs initialViewer] plain
  have "handleFileChange exampleLibs (Some textFile) initialViewer =
      alert ''Please select a valid PDF file.'' initialViewer"
    "numPages (handleFileChange exampleLibs (Some textFile) initialViewer) = numPages initialViewer"
    by blast+
  then have rejected: "handleFileChange exampleLibs (Some textFile) initialViewer =
      initialViewer\<lparr>alerts := [''Please select a valid PDF file.'']\<rparr>"
    "numPages (handleFileChange exampleLibs (Some textFile) initialViewer) = 0"
    by (simp_all add: alert_def initialViewer_def)
  from cleared zero kept unreadable rejected show ?thesis
    by (simp only: simp_thms)
qed

text \<open>
  C10. Selecting a file whose declared type is PDF empties the annotation set before the
  load runs, and the load does not touch it: afterwards the set is empty whatever the load
  did, every page's overlay is empty, an export draws nothing, and the selection pointer
  is what it was.
\<close>

theorem handleFileChange_resets_annotations:
  assumes "file_type f = ''application/pdf''"
  shows "handleFileChange co (Some f) s =
      (loadPdf co f (setAnnotations [] (s\<lparr>loading := True, pdfFile := Some f\<rparr>)))
        \<lparr>loading := False\<rparr> \<and>
    annotations (setAnnotations [] (s\<lparr>loading := True, pdfFile := Some f\<rparr>)) = [] \<and>
    annotations (handleFileChange co (Some f) s) = [] \<and>
    (\<forall>index. forPage index (handleFileChange co (Some f) s) = []) \<and>
    drawAnnotations co doc (annotations (handleFileChange co (Some f) s)) = Inr doc \<and>
    selectedAnnotation (handleFileChange co (Some f) s) = selectedAnnotation s"
proof -
  let ?s = "setAnnotations [] (s\<lparr>loading := True, pdfFile := Some f\<rparr>)"
  have eq: "handleFileChange co (Some f) s = (loadPdf co f ?s)\<lparr>loading := False\<rparr>"
    using assms by (simp add: handleFileChange_def)
  have start: "annotations ?s = []" "selectedAnnotation ?s = selectedAnnotation s"
    by (simp_all add: setAnnotations_def)
  with loadPdf_frame [of co f ?s] eq
  have after: "annotations (handleFileChange co (Some f) s) = []"
    "selectedAnnotation (handleFileChange co (Some f) s) = selectedAnnotation s"
    by simp_all
  then have "forPage index (handleFileChange co (Some f) s) = []" for index
    by (simp add: forPage_def)
  with eq start after show ?thesis by simp
qed

theorem handleFileChange_resets_annotations_witness:
  "annotations loadedViewer = [annA, annB] \<and>
   annotations (handleFileChange exampleLibs (Some letterFile) loadedViewer) = [] \<and>
   forPage 0 (handleFileChange exampleLibs (Some letterFile) loadedViewer) = [] \<and>
   selectedAnnotation (handleFileChange exampleLibs (Some letterFile) loadedViewer) = Some ''1000''"
proof -
  have pdf: "file_type letterFile = ''application/pdf''"
    by (simp add: letterFile_def)
  have before: "annotations loadedViewer = [annA, annB]"
    "selectedAnnotation loadedViewer = Some ''1000''"
    by (simp_all add: loadedViewer_def)
  from handleFileChange_resets_annotations [OF pdf, of exampleLibs loadedViewer "[]"]
  have "annotations (handleFileChange exampleLibs (Some letterFile) loadedViewer) = []"
    "forPage 0 (handleFileChange exampleLibs (Some letterFile) loadedViewer) = []"
    "selectedAnnotation (handleFileChange exampleLibs (Some letterFile) loadedViewer) =
       selectedAnnotation loadedViewer"
    by blast+
  with before show ?thesis by simp
qed


subsection \<open>Placing\<close>

text \<open>A click at the clock reading of an earlier click repeats that click's id.\<close>

theorem handlePageClick_id_counterexample:
  "map ann_id (annotations loadedViewer) = [''1000'', ''2000''] \<and>
   map ann_id (annotations (handlePageClick 1 sameMillisecondClick loadedViewer)) =
     [''1000'', ''2000'', ''1000'']"
  by (simp add: handlePageClick_def newAnnotation_def setAnnotations_def toString_def
      nat_toString.simps digit_char_def sameMillisecondClick_def example_defs)

text \<open>
  C7, as amended. A click that is accepted (the container is mounted, the target is not
  inside an annotation) appends one annotation and selects it: its id is the decimal
  string of the clock reading, its page and offset are those of the click, its text the
  placeholder and its size medium. On a page that had no annotation, the overlay then
  holds exactly the new annotation, selected. The id is new, and ids stay distinct,
  provided every id in the set is the string of another clock reading.
\<close>

theorem handlePageClick_places:
  assumes "rect ev = Some r" and "\<not> in_annotation_text ev"
  shows "annotations (handlePageClick pageIndex ev s) =
      annotations s @ [newAnnotation pageIndex ev r] \<and>
    newAnnotation pageIndex ev r =
      \<lparr>ann_id = toString (now ev), ann_page = pageIndex,
       ann_x = clientX ev - fst r, ann_y = clientY ev - snd r,
       ann_text = ''Type here...'', ann_fontSize = Medium\<rparr> \<and>
    selectedAnnotation (handlePageClick pageIndex ev s) = Some (toString (now ev)) \<and>
    (forPage pageIndex s = [] \<longrightarrow>
       forPage pageIndex (handlePageClick pageIndex ev s) = [newAnnotation pageIndex ev r] \<and>
       isSelected (handlePageClick pageIndex ev s) (newAnnotation pageIndex ev r)) \<and>
    ((\<forall>ann \<in> set (annotations s). \<exists>t. t \<noteq> now ev \<and> ann_id ann = toString t) \<longrightarrow>
       toString (now ev) \<notin> ann_id ` set (annotations s) \<and>
       (distinct (map ann_id (annotations s)) \<longrightarrow>
          distinct (map ann_id (annotations (handlePageClick pageIndex ev s)))))"
proof -
  let ?new = "newAnnotation pageIndex ev r"
  have placed: "annotations (handlePageClick pageIndex ev s) = annotations s @ [?new]"
    and selected: "selectedAnnotation (handlePageClick pageIndex ev s) = Some (ann_id ?new)"
    using assms by (simp_all add: handlePageClick_def setAnnotations_def)
  have new: "ann_id ?new = toString (now ev)" "ann_page ?new = pageIndex"
    by (simp_all add: newAnnotation_def)
  have on_page: "forPage pageIndex (handlePageClick pageIndex ev s) = [?new]"
    if "forPage pageIndex s = []"
    using that placed new by (simp add: forPage_def)
  have fresh: "toString (now ev) \<notin> ann_id ` set (annotations s)"
    if earlier: "\<forall>ann \<in> set (annotations s). \<exists>t. t \<noteq> now ev \<and> ann_id ann = toString t"
  proof
    assume "toString (now ev) \<in> ann_id ` set (annotations s)"
    then obtain ann where ann: "ann \<in> set (annotations s)" "ann_id ann = toString (now ev)"
      by auto
    with earlier obtain t where "t \<noteq> now ev" "ann_id ann = toString t" by blast
    with ann(2) show False using toString_inj [of t "now ev"] by simp
  qed
  from placed selected new on_page fresh show ?thesis
    by (auto simp: isSelected_def newAnnotation_def)
qed

theorem handlePageClick_places_witness:
  "annotations (handlePageClick 2 laterClick loadedViewer) =
     [annA, annB,
      \<lparr>ann_id = ''3000'', ann_page = 2, ann_x = 100, ann_y = 50,
       ann_text = ''Type here...'', ann_fontSize = Medium\<rparr>] \<and>
   forPage 2 (handlePageClick 2 laterClick loadedViewer) =
     [\<lparr>ann_id = ''3000'', ann_page = 2, ann_x = 100, ann_y = 50,
       ann_text = ''Type here...'', ann_fontSize = Medium\<rparr>] \<and>
   selectedAnnotation (handlePageClick 2 laterClick loadedViewer) = Some ''3000'' \<and>
   distinct (map ann_id (annotations (handlePageClick 2 laterClick loadedViewer)))"
proof -
  have click: "rect laterClick = Some (8, 100)" "\<not> in_annotation_text laterClick"
    by (simp_all add: laterClick_def)
  have str: "toString 1000 = ''1000''" "toString 2000 = ''2000''" "toString 3000 = ''3000''"
    by (simp_all add: toString_def nat_toString.simps digit_char_def)
  have all: "annotations loadedViewer = [annA, annB]"
    by (simp add: loadedViewer_def)
  have ids: "ann_id annA = toString 1000" "ann_id annB = toString 2000"
    by (simp_all add: str annA_def annB_def)
  have empty: "forPage 2 loadedViewer = []"
    by (simp add: forPage_def example_defs)
  have "\<exists>t. t \<noteq> now laterClick \<and> ann_id annA = toString t"
    using ids(1) by (intro exI [of _ 1000]) (simp add: laterClick_def)
  moreover have "\<exists>t. t \<noteq> now laterClick \<and> ann_id annB = toString t"
    using ids(2) by (intro exI [of _ 2000]) (simp add: laterClick_def)
  ultimately have earlier:
    "\<forall>ann \<in> set (annotations loadedViewer). \<exists>t. t \<noteq> now laterClick \<and> ann_id ann = toString t"
    by (simp add: all)
  have dist: "distinct (map ann_id (annotations loadedViewer))"
    by (simp add: all ids str)
  have new: "newAnnotation 2 laterClick (8, 100) =
      \<lparr>ann_id = ''3000'', ann_page = 2, ann_x = 100, ann_y = 50,
       ann_text = ''Type here...'', ann_fontSize = Medium\<rparr>"
    by (simp add: newAnnotation_def laterClick_def str)
  from handlePageClick_places [OF click, of 2 loadedViewer] empty earlier dist
  have "annotations (handlePageClick 2 laterClick loadedViewer) =
      annotations loadedViewer @ [newAnnotation 2 laterClick (8, 100)]"
    "forPage 2 (handlePageClick 2 laterClick loadedViewer) = [newAnnotation 2 laterClick (8, 100)]"
    "selectedAnnotation (handlePageClick 2 laterClick loadedViewer) = Some (toString (now laterClick))"
    "distinct (map ann_id (annotations (handlePageClick 2 laterClick loadedViewer)))"
    by blast+
  moreover have "now laterClick = 3000"
    by (simp add: laterClick_def)
  ultimately show ?thesis
    by (simp add: all new str)
qed

end
